theory Spec2Isabelle
  imports
    Complex_Main
    "HOL-Library.List_Lexorder"
    "HOL-Library.Char_ord"
    "HOL-Library.Option_ord"
    "HOL-Library.Multiset"
begin

section \<open>The shout server: status log, poll loop, rotating tokens\<close>

text \<open>
  A shallow embedding of \<^verbatim>\<open>appengine-python-flask/main.py\<close> and
  \<^verbatim>\<open>appengine-python-flask/rotoken.py\<close>. A Python string is the \<open>string\<close> of its UTF-8
  bytes, compared bytewise and lexicographically as the datastore compares string
  properties. Everything the handlers raise is a value of \<open>failure\<close>.
\<close>

subsection \<open>Failures\<close>

datatype failure =
    IndexError
  | KeyError
  | AttributeError
  | BadRequestKeyError
  | BadValueError
  | Abort nat

subsection \<open>Data model (main.py, lines 75-139)\<close>

text \<open>\<^verbatim>\<open>str.split(sep)\<close> for a one-character separator: never empty, one more part than
  there are separators.\<close>

fun split_sep :: "char \<Rightarrow> string \<Rightarrow> string list" where
  "split_sep c [] = [[]]"
| "split_sep c (x # xs) =
     (if x = c then [] # split_sep c xs
      else (case split_sep c xs of
              [] \<Rightarrow> [[x]]
            | w # ws \<Rightarrow> (x # w) # ws))"

definition STATUSES :: "string list" where
  "STATUSES = [''a-new'', ''b-shouting'', ''c-error'', ''d-fatal'', ''e-success'']"

text \<open>\<^verbatim>\<open>STATUS_MAP = dict((status.split('-')[1], status) for status in STATUSES)\<close>.
  A later pair of \<^verbatim>\<open>dict(...)\<close> overrides an earlier one with the same key, so the
  pairs are searched from the last. Every member of \<open>STATUSES\<close> has a dash, so the index 1
  is in range (lemma \<open>STATUSES_split\<close>).\<close>

definition STATUS_MAP :: "string \<rightharpoonup> string" where
  "STATUS_MAP =
     map_of (rev (map (\<lambda>status. (split_sep CHR ''-'' status ! 1, status)) STATUSES))"

definition ascii_lowercase :: string where
  "ascii_lowercase = ''abcdefghijklmnopqrstuvwxyz''"

definition ascii_uppercase :: string where
  "ascii_uppercase = ''ABCDEFGHIJKLMNOPQRSTUVWXYZ''"

definition ascii_letters :: string where
  "ascii_letters = ascii_lowercase @ ascii_uppercase"

definition digits :: string where
  "digits = ''0123456789''"

definition ID_CHARS :: string where
  "ID_CHARS = ascii_letters @ digits"

definition RANDOM_ID_LEN :: int where
  "RANDOM_ID_LEN = 43"

text \<open>\<^verbatim>\<open>rand.choice(seq)\<close> returns the member of \<open>seq\<close> at a position the random source
  picks; the model takes that position as its input.\<close>

definition choice :: "'a list \<Rightarrow> nat \<Rightarrow> 'a" where
  "choice seq p = seq ! p"

text \<open>\<^verbatim>\<open>''.join([rand.choice(ID_CHARS) for i in range(id_len)])\<close>; \<open>rand i\<close> is the
  position picked at the \<open>i\<close>-th draw.\<close>

definition new_random_id :: "int \<Rightarrow> (nat \<Rightarrow> nat) \<Rightarrow> string" where
  "new_random_id id_len rand = map (\<lambda>i. choice ID_CHARS (rand i)) [0..<nat id_len]"

text \<open>\<^verbatim>\<open>'%s-%s' % (browser_id, shout_id)\<close>\<close>

definition combine_ids :: "string \<Rightarrow> string \<Rightarrow> string" where
  "combine_ids browser_id shout_id = browser_id @ ''-'' @ shout_id"

text \<open>One entity of the status log. \<open>timestamp\<close> is set by the datastore when the entity
  is first put (\<^verbatim>\<open>auto_now_add=True\<close>); the optional properties are \<open>None\<close> until
  assigned.\<close>

record ShoutStatusLog =
  combined_shout_id :: string
  status :: "string option"
  timestamp :: int
  error :: "string option"
  result :: "string option"
  host :: "string option"

text \<open>\<^verbatim>\<open>self.status.split('-')[1] if self.status else ''\<close>: \<open>None\<close> and the empty string
  are both false in Python; the index raises when the status has no dash.\<close>

definition status_name :: "ShoutStatusLog \<Rightarrow> failure + string" where
  "status_name self =
     (case status self of
        None \<Rightarrow> Inr []
      | Some s \<Rightarrow>
          (if s = [] then Inr []
           else (case split_sep CHR ''-'' s of
                   _ # name # _ \<Rightarrow> Inr name
                 | _ \<Rightarrow> Inl IndexError)))"

subsection \<open>The status enumeration of the specification\<close>

text \<open>The specification's ordered enumeration, with its ordinal as the priority, to be
  compared with the prefixed strings of the source.\<close>

datatype status_enum = NEW | SHOUTING | ERROR | FATAL | SUCCESS

fun priority :: "status_enum \<Rightarrow> nat" where
  "priority NEW = 0"
| "priority SHOUTING = 1"
| "priority ERROR = 2"
| "priority FATAL = 3"
| "priority SUCCESS = 4"

text \<open>The string the source stores for a status: the member of \<open>STATUSES\<close> at its
  ordinal.\<close>

definition encode :: "status_enum \<Rightarrow> string" where
  "encode s = STATUSES ! priority s"

subsection \<open>The status log in the datastore (main.py, lines 230-236 and 286)\<close>

text \<open>The entities of kind \<^verbatim>\<open>ShoutStatusLog\<close>, listed in the order of their datastore
  keys. The datastore allocates the key of a new entity, so that order is neither the
  order of the writes nor the order of the timestamps; a query returns entities that are
  equal on its sort property in key order.\<close>

type_synonym datastore = "ShoutStatusLog list"

text \<open>\<^verbatim>\<open>entity.put()\<close> of a new entity: the datastore stamps it with the current time
  \<open>now\<close> and files it where its fresh key falls, \<open>pos\<close>.\<close>

definition put :: "int \<Rightarrow> nat \<Rightarrow> ShoutStatusLog \<Rightarrow> datastore \<Rightarrow> datastore" where
  "put now pos entity ds = take pos ds @ entity\<lparr>timestamp := now\<rparr> # drop pos ds"

text \<open>\<^verbatim>\<open>.filter(ShoutStatusLog.combined_shout_id == k)\<close>\<close>

definition filter_shout_id :: "string \<Rightarrow> datastore \<Rightarrow> ShoutStatusLog list" where
  "filter_shout_id k ds = filter (\<lambda>e. combined_shout_id e = k) ds"

text \<open>\<^verbatim>\<open>.order(-ShoutStatusLog.status)\<close>: descending in the status property and in
  nothing else; entities of equal status keep their key order. A missing status sorts
  below every string.\<close>

fun insert_desc :: "ShoutStatusLog \<Rightarrow> ShoutStatusLog list \<Rightarrow> ShoutStatusLog list" where
  "insert_desc e [] = [e]"
| "insert_desc e (x # xs) =
     (if status e < status x then x # insert_desc e xs else e # x # xs)"

definition order_desc_status :: "ShoutStatusLog list \<Rightarrow> ShoutStatusLog list" where
  "order_desc_status es = foldr insert_desc es []"

text \<open>\<^verbatim>\<open>q.fetch(n)\<close>\<close>

definition fetch :: "nat \<Rightarrow> 'a list \<Rightarrow> 'a list" where
  "fetch n es = take n es"

text \<open>The whole query of the poll loop, lines 232-236.\<close>

definition query_status :: "datastore \<Rightarrow> string \<Rightarrow> ShoutStatusLog list" where
  "query_status ds k = fetch 1 (order_desc_status (filter_shout_id k ds))"

text \<open>The latest-status lookup: the entity the poll loop examines, if any
  (\<^verbatim>\<open>if entities: entity = entities[0]\<close>).\<close>

definition latest :: "datastore \<Rightarrow> string \<Rightarrow> ShoutStatusLog option" where
  "latest ds k = (case query_status ds k of [] \<Rightarrow> None | entity # _ \<Rightarrow> Some entity)"


text \<open>The property declares \<^verbatim>\<open>choices=STATUSES\<close>: a stored status is a member of
  \<open>STATUSES\<close> or missing.\<close>

definition status_choices :: "ShoutStatusLog \<Rightarrow> bool" where
  "status_choices e = (case status e of None \<Rightarrow> True | Some s \<Rightarrow> s \<in> set STATUSES)"

text \<open>ndb validates a value when it is assigned to a property, lines 129-134. A string
  property is indexed unless declared otherwise, and an indexed one refuses a value of
  more than 1500 bytes with \<^verbatim>\<open>BadValueError\<close>; \<^verbatim>\<open>choices\<close> refuse every other value;
  \<open>None\<close> is always accepted. \<open>combined_shout_id\<close>, \<open>status\<close>, \<open>error\<close> and \<open>host\<close> are
  indexed, \<open>result\<close> is declared \<^verbatim>\<open>indexed=False\<close>.\<close>

definition MAX_STRING_LENGTH :: nat where
  "MAX_STRING_LENGTH = 1500"

definition indexed_ok :: "string option \<Rightarrow> bool" where
  "indexed_ok v = (case v of None \<Rightarrow> True | Some s \<Rightarrow> length s \<le> MAX_STRING_LENGTH)"

definition choices_ok :: "string option \<Rightarrow> bool" where
  "choices_ok v = (case v of None \<Rightarrow> True | Some s \<Rightarrow> s \<in> set STATUSES)"

subsection \<open>The rotating token manager (rotoken.py)\<close>

record RotokenRecord =
  tokens :: "string list"

text \<open>The records of kind \<^verbatim>\<open>RotokenRecord\<close>, by datastore key.\<close>

type_synonym token_store = "string \<rightharpoonup> RotokenRecord"

record Rotoken =
  datastore_key :: string
  max_tokens :: int

text \<open>\<^verbatim>\<open>Rotoken(datastore_key)\<close> with the default \<^verbatim>\<open>max_tokens=3\<close>, as main.py
  creates its purse.\<close>

definition Rotoken_default :: "string \<Rightarrow> Rotoken" where
  "Rotoken_default k = \<lparr>datastore_key = k, max_tokens = 3\<rparr>"

text \<open>\<^verbatim>\<open>del xs[n:]\<close>: a negative \<open>n\<close> counts from the end.\<close>

definition del_from :: "int \<Rightarrow> 'a list \<Rightarrow> 'a list" where
  "del_from n xs = (if 0 \<le> n then take (nat n) xs else take (length xs - nat (- n)) xs)"

definition init :: "Rotoken \<Rightarrow> string \<Rightarrow> token_store \<Rightarrow> token_store" where
  "init self first_token store =
     (case store (datastore_key self) of
        None \<Rightarrow> store(datastore_key self \<mapsto> \<lparr>tokens = [first_token]\<rparr>)
      | Some record \<Rightarrow> store(datastore_key self \<mapsto> record))"

text \<open>\<^verbatim>\<open>self._key.get()\<close> is \<open>None\<close> when \<open>init\<close> never ran; \<^verbatim>\<open>record.tokens\<close> then
  raises.\<close>

definition rotate_token :: "Rotoken \<Rightarrow> string \<Rightarrow> token_store \<Rightarrow> failure + token_store" where
  "rotate_token self token store =
     (case store (datastore_key self) of
        None \<Rightarrow> Inl AttributeError
      | Some record \<Rightarrow>
          Inr (store(datastore_key self \<mapsto>
                 record\<lparr>tokens := del_from (max_tokens self) (token # tokens record)\<rparr>)))"

definition get_tokens :: "Rotoken \<Rightarrow> token_store \<Rightarrow> failure + string list" where
  "get_tokens self store =
     (case store (datastore_key self) of
        None \<Rightarrow> Inl AttributeError
      | Some record \<Rightarrow> Inr (tokens record))"

text \<open>Several rotations, one after the other; the first failure ends them.\<close>

fun rotate_tokens :: "Rotoken \<Rightarrow> string list \<Rightarrow> token_store \<Rightarrow> failure + token_store" where
  "rotate_tokens self [] store = Inr store"
| "rotate_tokens self (t # ts) store =
     (case rotate_token self t store of
        Inl err \<Rightarrow> Inl err
      | Inr store' \<Rightarrow> rotate_tokens self ts store')"

subsection \<open>The handlers that write the status log (main.py, lines 168-178, 269-302)\<close>

text \<open>A Flask request: the POST payload \<^verbatim>\<open>request.form\<close> and the query string
  \<^verbatim>\<open>request.args\<close>. \<^verbatim>\<open>d.get(k)\<close> is \<open>None\<close> for a missing key, \<^verbatim>\<open>d[k]\<close> raises
  \<^verbatim>\<open>BadRequestKeyError\<close>.\<close>

record request =
  form :: "string \<rightharpoonup> string"
  args :: "string \<rightharpoonup> string"

text \<open>What the handlers share: the status log and the token records.\<close>

record server =
  log :: datastore
  purse_store :: token_store

text \<open>\<^verbatim>\<open>ShoutStatusLog()\<close>: no property assigned yet. The timestamp is a placeholder
  until \<open>put\<close> stamps the entity.\<close>

definition new_entity :: ShoutStatusLog where
  "new_entity = \<lparr>combined_shout_id = [], status = None, timestamp = 0, error = None,
     result = None, host = None\<rparr>"

text \<open>\<^verbatim>\<open>post_shout_status\<close>, lines 275-287. The result pairs what the worker receives
  (the body \<^verbatim>\<open>'{}'\<close>, or the failure) with the server afterwards. Each assignment to
  a property is validated where the source makes it: the combined id at line 278, the
  status at line 280, the error at line 282 (the result of line 284 has no bound), the
  host at line 285.\<close>

definition post_shout_status ::
  "Rotoken \<Rightarrow> request \<Rightarrow> int \<Rightarrow> nat \<Rightarrow> server \<Rightarrow> (failure + string) \<times> server" where
  "post_shout_status purse request now pos srv =
     (case get_tokens purse (purse_store srv) of
        Inl err \<Rightarrow> (Inl err, srv)
      | Inr toks \<Rightarrow>
          (if (case form request ''token'' of None \<Rightarrow> True | Some t \<Rightarrow> t \<notin> set toks)
           then (Inl (Abort 403), srv)
           else (case args request ''browserId'' of
             None \<Rightarrow> (Inl BadRequestKeyError, srv)
           | Some browser_id \<Rightarrow>
           (case args request ''shoutId'' of
             None \<Rightarrow> (Inl BadRequestKeyError, srv)
           | Some shout_id \<Rightarrow>
           (if \<not> indexed_ok (Some (combine_ids browser_id shout_id))
            then (Inl BadValueError, srv)
            else
           (case form request ''status'' of
             None \<Rightarrow> (Inl BadRequestKeyError, srv)
           | Some name \<Rightarrow>
           (case STATUS_MAP name of
             None \<Rightarrow> (Inl KeyError, srv)
           | Some code \<Rightarrow>
           (if \<not> (indexed_ok (Some code) \<and> choices_ok (Some code))
            then (Inl BadValueError, srv)
            else if name \<in> set [''error'', ''fatal''] \<and> \<not> indexed_ok (form request ''result'')
            then (Inl BadValueError, srv)
            else if \<not> indexed_ok (form request ''host'')
            then (Inl BadValueError, srv)
            else
               (let entity = new_entity\<lparr>combined_shout_id := combine_ids browser_id shout_id,
                                        status := Some code\<rparr>;
                    entity = (if name \<in> set [''error'', ''fatal'']
                              then entity\<lparr>error := form request ''result''\<rparr>
                              else entity\<lparr>result := form request ''result''\<rparr>);
                    entity = entity\<lparr>host := form request ''host''\<rparr>
                in (Inr ''{}'', srv\<lparr>log := put now pos entity (log srv)\<rparr>))))))))))"

text \<open>\<^verbatim>\<open>shout\<close>, lines 171-178: the write of the first log entry of a job.
  \<open>url_decode\<close> is werkzeug's decoder of the token, \<open>hostname\<close> is
  \<^verbatim>\<open>socket.gethostname()\<close>. The assignments of lines 174-177 are validated as above.\<close>

definition shout_put ::
  "(string \<Rightarrow> string \<rightharpoonup> string) \<Rightarrow> request \<Rightarrow> string \<Rightarrow> int \<Rightarrow> nat \<Rightarrow> server
     \<Rightarrow> (failure + unit) \<times> server" where
  "shout_put url_decode request hostname now pos srv =
     (case form request ''token'' of
        None \<Rightarrow> (Inl BadRequestKeyError, srv)
      | Some tok \<Rightarrow>
      (case url_decode tok ''browserId'' of
        None \<Rightarrow> (Inl BadRequestKeyError, srv)
      | Some browser_id \<Rightarrow>
      (case form request ''shoutId'' of
        None \<Rightarrow> (Inl BadRequestKeyError, srv)
      | Some shout_id \<Rightarrow>
      (if \<not> indexed_ok (Some (combine_ids browser_id shout_id))
       then (Inl BadValueError, srv)
       else
      (case STATUS_MAP ''new'' of
        None \<Rightarrow> (Inl KeyError, srv)
      | Some code \<Rightarrow>
      (if \<not> (indexed_ok (Some code) \<and> choices_ok (Some code))
       then (Inl BadValueError, srv)
       else if \<not> indexed_ok (Some hostname)
       then (Inl BadValueError, srv)
       else
          (let entity = new_entity\<lparr>combined_shout_id := combine_ids browser_id shout_id,
                                   status := Some code, host := Some hostname\<rparr>
           in (Inr (), srv\<lparr>log := put now pos entity (log srv)\<rparr>))))))))"

text \<open>\<^verbatim>\<open>purge\<close>: entities older than one day go. Timestamps count microseconds.\<close>

definition purge :: "int \<Rightarrow> server \<Rightarrow> server" where
  "purge utcnow srv =
     (let too_old = utcnow - 86400000000
      in srv\<lparr>log := filter (\<lambda>e. \<not> timestamp e < too_old) (log srv)\<rparr>)"

text \<open>The servers that the handlers can produce from the empty datastore.\<close>

inductive reachable :: "Rotoken \<Rightarrow> server \<Rightarrow> bool" for purse :: Rotoken where
  reach_empty: "reachable purse \<lparr>log = [], purse_store = Map.empty\<rparr>"
| reach_init: "reachable purse srv \<Longrightarrow>
     reachable purse (srv\<lparr>purse_store := init purse t (purse_store srv)\<rparr>)"
| reach_rotate: "reachable purse srv \<Longrightarrow> rotate_token purse t (purse_store srv) = Inr store' \<Longrightarrow>
     reachable purse (srv\<lparr>purse_store := store'\<rparr>)"
| reach_shout: "reachable purse srv \<Longrightarrow>
     reachable purse (snd (shout_put url_decode request hostname now pos srv))"
| reach_post: "reachable purse srv \<Longrightarrow>
     reachable purse (snd (post_shout_status purse request now pos srv))"
| reach_purge: "reachable purse srv \<Longrightarrow> reachable purse (purge utcnow srv)"

subsection \<open>The poll loop (main.py, lines 206-266)\<close>

text \<open>The values of the response dictionary. \<open>UrlEncoded d\<close> stands for
  \<^verbatim>\<open>werkzeug.urls.url_encode(d)\<close>.\<close>

datatype jvalue =
    JNull
  | JStr string
  | UrlEncoded "(string \<times> jvalue) list"
  | JDict "(string \<times> jvalue) list"

type_synonym pydict = "string \<rightharpoonup> jvalue"

definition json_opt :: "string option \<Rightarrow> jvalue" where
  "json_opt v = (case v of None \<Rightarrow> JNull | Some s \<Rightarrow> JStr s)"

text \<open>Lines 232-249, one pass: the query and what the loop does with the entity found.
  \<open>Returned\<close> is a \<^verbatim>\<open>return\<close> from inside the loop, \<open>Broke\<close> the \<^verbatim>\<open>break\<close> of a changed
  status, \<open>Unchanged\<close> falls through to the timeout test.\<close>

datatype looked = Raised failure | Returned pydict | Broke pydict | Unchanged pydict

definition look_up :: "datastore \<Rightarrow> string \<Rightarrow> string \<Rightarrow> string \<Rightarrow> pydict \<Rightarrow> looked" where
  "look_up ds browser_id shout_id last_status response =
     (case query_status ds (combine_ids browser_id shout_id) of
        [] \<Rightarrow> Unchanged response
      | entity # _ \<Rightarrow>
          (case status_name entity of
             Inl err \<Rightarrow> Raised err
           | Inr st \<Rightarrow>
               (let response = response(''status'' \<mapsto> JStr st) in
                if st = ''success''
                then Returned (response(''result'' \<mapsto> json_opt (result entity)))
                else if st = ''fatal''
                then Returned (response(''error'' \<mapsto> json_opt (error entity)))
                else if last_status \<noteq> st
                then Broke (response(''error'' \<mapsto> json_opt (error entity)))
                else Unchanged response)))"

text \<open>What the loop cannot see ahead: \<open>start_timestamp\<close> is \<^verbatim>\<open>time.time()\<close> at line 227,
  \<open>time_at i\<close> is \<^verbatim>\<open>time.time()\<close> at line 252 in pass \<open>i\<close> of the loop, and
  \<open>datastore_at i\<close> is the log as the query of pass \<open>i\<close> sees it. Python's float seconds
  are rationals here; doubling a float is exact.\<close>

record world =
  start_timestamp :: rat
  time_at :: "nat \<Rightarrow> rat"
  datastore_at :: "nat \<Rightarrow> datastore"

datatype left = Return pydict | Break pydict

text \<open>The \<^verbatim>\<open>while True\<close> loop. \<open>slept\<close> collects the arguments of \<^verbatim>\<open>time.sleep\<close>, in
  order. A clock that never shows 45 seconds over a log that never changes keeps the
  loop running: the result is then \<open>None\<close>.\<close>

partial_function (option) poll_loop ::
  "world \<Rightarrow> string \<Rightarrow> string \<Rightarrow> string \<Rightarrow> pydict \<Rightarrow> rat \<Rightarrow> nat \<Rightarrow> rat list
     \<Rightarrow> ((failure + left) \<times> rat list) option" where
  "poll_loop w browser_id shout_id last_status response sleep_seconds i slept =
     (case look_up (datastore_at w i) browser_id shout_id last_status response of
        Raised err \<Rightarrow> Some (Inl err, slept)
      | Returned response \<Rightarrow> Some (Inr (Return response), slept)
      | Broke response \<Rightarrow> Some (Inr (Break response), slept)
      | Unchanged response \<Rightarrow>
          (if time_at w i - start_timestamp w \<ge> 45
           then Some (Inr (Break response), slept)
           else poll_loop w browser_id shout_id last_status response
                  (min 5 (sleep_seconds * 2)) (Suc i) (slept @ [sleep_seconds])))"

text \<open>Lines 258-266, after the loop: the continuation link, built from the status the
  response holds.\<close>

definition next_link :: "string \<Rightarrow> string \<Rightarrow> pydict \<Rightarrow> failure + pydict" where
  "next_link browser_id shout_id response =
     (case response ''status'' of
        None \<Rightarrow> Inl KeyError
      | Some st \<Rightarrow>
          Inr (response(''nextLink'' \<mapsto> JDict
            [(''target'', JStr ''shout_status''),
             (''method'', JStr ''POST''),
             (''token'', UrlEncoded
                [(''browserId'', JStr browser_id),
                 (''shoutId'', JStr shout_id),
                 (''status'', st)])])))"

text \<open>\<^verbatim>\<open>poll_shout_status\<close>: the response dictionary with its HTTP status (200 when Flask
  is given the body alone), and the sleeps made on the way.\<close>

definition poll_shout_status ::
  "world \<Rightarrow> string \<Rightarrow> string \<Rightarrow> string \<Rightarrow> ((failure + pydict \<times> nat) \<times> rat list) option" where
  "poll_shout_status w browser_id shout_id last_status =
     (case poll_loop w browser_id shout_id last_status
             [''shoutId'' \<mapsto> JStr shout_id, ''status'' \<mapsto> JStr last_status] (1 / 10) 0 [] of
        None \<Rightarrow> None
      | Some (Inl err, slept) \<Rightarrow> Some (Inl err, slept)
      | Some (Inr (Return response), slept) \<Rightarrow> Some (Inr (response, 200), slept)
      | Some (Inr (Break response), slept) \<Rightarrow>
          (case next_link browser_id shout_id response of
             Inl err \<Rightarrow> Some (Inl err, slept)
           | Inr response \<Rightarrow> Some (Inr (response, 202), slept)))"



subsection \<open>Sample events\<close>

text \<open>Events of the job with browser id \<open>B\<close> and shout id \<open>7\<close>, used where a statement
  is evaluated on data.\<close>

definition ev1 :: ShoutStatusLog where
  "ev1 = \<lparr>combined_shout_id = ''B-7'', status = Some ''c-error'', timestamp = 1,
     error = Some ''first'', result = None, host = None\<rparr>"



definition evN :: ShoutStatusLog where
  "evN = \<lparr>combined_shout_id = ''B-7'', status = Some ''a-new'', timestamp = 5,
     error = None, result = None, host = Some ''web1''\<rparr>"

definition evS :: ShoutStatusLog where
  "evS = \<lparr>combined_shout_id = ''B-7'', status = Some ''e-success'', timestamp = 3,
     error = None, result = Some ''HELLO'', host = Some ''win1''\<rparr>"

subsection \<open>What a written event looks like, and a sample server\<close>

text \<open>The fields the handlers leave in an event they write.\<close>

definition fields_ok :: "ShoutStatusLog \<Rightarrow> bool" where
  "fields_ok e =
     ((error e \<noteq> None \<longrightarrow> status e = Some ''c-error'' \<or> status e = Some ''d-fatal'') \<and>
      (result e \<noteq> None \<longrightarrow>
         status e = Some ''a-new'' \<or> status e = Some ''b-shouting'' \<or>
         status e = Some ''e-success'') \<and>
      (\<exists>c \<in> set STATUSES. status e = Some c))"

text \<open>A purse with the default three tokens, a server whose token list was rotated
  once, and three callbacks of a worker holding the older token, one of them with an error
  message of 1501 bytes.\<close>

definition purse0 :: Rotoken where
  "purse0 = Rotoken_default ''v1''"

definition srv0 :: server where
  "srv0 = \<lparr>log = [], purse_store = [''v1'' \<mapsto> \<lparr>tokens = [''tokB'', ''tokA'']\<rparr>]\<rparr>"

definition req_success :: request where
  "req_success =
     \<lparr>form = [''token'' \<mapsto> ''tokA'', ''status'' \<mapsto> ''success'', ''result'' \<mapsto> ''HELLO'',
              ''host'' \<mapsto> ''win1''],
      args = [''browserId'' \<mapsto> ''B'', ''shoutId'' \<mapsto> ''7'']\<rparr>"

definition req_long_error :: request where
  "req_long_error =
     \<lparr>form = [''token'' \<mapsto> ''tokA'', ''status'' \<mapsto> ''error'',
              ''result'' \<mapsto> replicate 1501 CHR ''x'', ''host'' \<mapsto> ''win1''],
      args = [''browserId'' \<mapsto> ''B'', ''shoutId'' \<mapsto> ''7'']\<rparr>"

definition req_shouting :: request where
  "req_shouting =
     \<lparr>form = [''token'' \<mapsto> ''tokA'', ''status'' \<mapsto> ''shouting'', ''result'' \<mapsto> ''HEL'',
              ''host'' \<mapsto> ''win1''],
      args = [''browserId'' \<mapsto> ''B'', ''shoutId'' \<mapsto> ''7'']\<rparr>"

subsection \<open>Shapes of responses, and sample runs\<close>

text \<open>The response before the loop has found anything: the caller's status, and none of
  the optional members.\<close>

definition fresh_response :: "string \<Rightarrow> pydict \<Rightarrow> bool" where
  "fresh_response known r =
     (r ''status'' = Some (JStr known) \<and> r ''result'' = None \<and> r ''error'' = None \<and>
      r ''nextLink'' = None)"

text \<open>What the loop hands on: from a \<^verbatim>\<open>return\<close> inside it a terminal response, from a
  \<^verbatim>\<open>break\<close> a response that has an \<open>error\<close> member exactly when the status changed.\<close>

definition left_shape :: "string \<Rightarrow> left \<Rightarrow> bool" where
  "left_shape known l =
     (case l of
        Return r \<Rightarrow>
          r ''nextLink'' = None \<and>
          ((r ''status'' = Some (JStr ''success'') \<and> r ''result'' \<noteq> None \<and> r ''error'' = None) \<or>
           (r ''status'' = Some (JStr ''fatal'') \<and> r ''error'' \<noteq> None \<and> r ''result'' = None))
      | Break r \<Rightarrow>
          r ''nextLink'' = None \<and> r ''result'' = None \<and> r ''status'' \<noteq> None \<and>
          ((r ''error'' \<noteq> None) = (r ''status'' \<noteq> Some (JStr known))))"

text \<open>Three runs: the job already succeeded; the job reported an error; nothing happens
  while the clock passes 45 seconds in the ninth pass.\<close>

definition world_done :: world where
  "world_done = \<lparr>start_timestamp = 0, time_at = (\<lambda>i. 0), datastore_at = (\<lambda>i. [evN, evS])\<rparr>"

definition world_error :: world where
  "world_error = \<lparr>start_timestamp = 0, time_at = (\<lambda>i. 0), datastore_at = (\<lambda>i. [evN, ev1])\<rparr>"


subsection \<open>Basic facts\<close>

lemma STATUSES_split:
  "list_all (\<lambda>s. length (split_sep CHR ''-'' s) = 2) STATUSES"
  by (simp add: STATUSES_def)

lemma STATUS_MAP_values:
  "STATUS_MAP ''new'' = Some ''a-new''"
  "STATUS_MAP ''shouting'' = Some ''b-shouting''"
  "STATUS_MAP ''error'' = Some ''c-error''"
  "STATUS_MAP ''fatal'' = Some ''d-fatal''"
  "STATUS_MAP ''success'' = Some ''e-success''"
  by (simp_all add: STATUS_MAP_def STATUSES_def)

lemma STATUS_MAP_ran: "STATUS_MAP n = Some s \<Longrightarrow> s \<in> set STATUSES"
  by (auto simp: STATUS_MAP_def dest: map_of_SomeD)

lemma encode_simps:
  "encode NEW = ''a-new''"
  "encode SHOUTING = ''b-shouting''"
  "encode ERROR = ''c-error''"
  "encode FATAL = ''d-fatal''"
  "encode SUCCESS = ''e-success''"
  by (simp_all add: encode_def STATUSES_def)

lemma encode_less_iff: "(encode a < encode b) = (priority a < priority b)"
  by (cases a; cases b; simp add: encode_simps)

lemma ID_CHARS_length: "length ID_CHARS = 62"
  by (simp add: ID_CHARS_def ascii_letters_def ascii_lowercase_def ascii_uppercase_def
      digits_def)

lemma dash_not_ID_CHARS: "CHR ''-'' \<notin> set ID_CHARS"
  by (simp add: ID_CHARS_def ascii_letters_def ascii_lowercase_def ascii_uppercase_def
      digits_def)

lemma append_dash_inject:
  assumes "CHR ''-'' \<notin> set b1" and "CHR ''-'' \<notin> set b2"
    and "b1 @ CHR ''-'' # s1 = b2 @ CHR ''-'' # s2"
  shows "b1 = b2 \<and> s1 = s2"
  using assms
proof (induction b1 arbitrary: b2)
  case Nil
  then show ?case by (cases b2) auto
next
  case (Cons x xs)
  then show ?case by (cases b2) auto
qed

lemma distinct_ID_CHARS: "distinct ID_CHARS"
  by (simp add: ID_CHARS_def ascii_letters_def ascii_lowercase_def ascii_uppercase_def
      digits_def)

lemma new_random_id_length: "length (new_random_id n rand) = nat n"
  by (simp add: new_random_id_def)

lemma new_random_id_set:
  assumes "\<forall>i<nat n. rand i < length ID_CHARS"
  shows "set (new_random_id n rand) \<subseteq> set ID_CHARS"
  using assms by (auto simp: new_random_id_def choice_def)

lemma id_space: "card {xs. set xs \<subseteq> set ID_CHARS \<and> length xs = 43} = 62 ^ 43"
proof -
  have "card (set ID_CHARS) = 62"
    using distinct_card [OF distinct_ID_CHARS] by (simp add: ID_CHARS_length)
  then show ?thesis
    using card_lists_length_eq [of "set ID_CHARS" 43] by simp
qed

lemma new_random_id_nth:
  assumes "i < nat n"
  shows "new_random_id n rand ! i = ID_CHARS ! rand i"
  using assms by (simp add: new_random_id_def choice_def)

lemma new_random_id_onto:
  assumes "length xs = nat n" and "set xs \<subseteq> set ID_CHARS"
  shows "\<exists>rand. (\<forall>i. rand i < length ID_CHARS) \<and> new_random_id n rand = xs"
proof -
  have "\<forall>i. \<exists>p. p < length ID_CHARS \<and> (i < nat n \<longrightarrow> ID_CHARS ! p = xs ! i)"
  proof
    fix i
    show "\<exists>p. p < length ID_CHARS \<and> (i < nat n \<longrightarrow> ID_CHARS ! p = xs ! i)"
    proof (cases "i < nat n")
      case True
      then have "xs ! i \<in> set ID_CHARS" using assms by (auto simp: subset_iff)
      then show ?thesis using True by (auto simp: in_set_conv_nth)
    next
      case False
      then show ?thesis by (auto simp: ID_CHARS_length intro: exI [of _ 0])
    qed
  qed
  then obtain rand where r: "\<forall>i. rand i < length ID_CHARS \<and>
      (i < nat n \<longrightarrow> ID_CHARS ! rand i = xs ! i)"
    by metis
  have "new_random_id n rand = xs"
  proof (rule nth_equalityI)
    show "length (new_random_id n rand) = length xs"
      using assms(1) by (simp add: new_random_id_length)
  next
    fix i assume "i < length (new_random_id n rand)"
    then have "i < nat n" by (simp add: new_random_id_length)
    then show "new_random_id n rand ! i = xs ! i"
      using r by (simp add: new_random_id_nth)
  qed
  with r show ?thesis by (intro exI [of _ rand]) simp
qed

lemma new_random_id_outputs:
  "{new_random_id RANDOM_ID_LEN rand | rand. \<forall>i<43. rand i < length ID_CHARS}
     = {xs. set xs \<subseteq> set ID_CHARS \<and> length xs = 43}"
proof (intro set_eqI iffI)
  fix xs
  assume "xs \<in> {new_random_id RANDOM_ID_LEN rand | rand. \<forall>i<43. rand i < length ID_CHARS}"
  then obtain rand where "\<forall>i<43. rand i < length ID_CHARS"
    and "xs = new_random_id RANDOM_ID_LEN rand" by blast
  then show "xs \<in> {xs. set xs \<subseteq> set ID_CHARS \<and> length xs = 43}"
    using new_random_id_set [of RANDOM_ID_LEN rand]
    by (simp add: new_random_id_length RANDOM_ID_LEN_def)
next
  fix xs
  assume "xs \<in> {xs. set xs \<subseteq> set ID_CHARS \<and> length xs = 43}"
  then have "length xs = nat RANDOM_ID_LEN" "set xs \<subseteq> set ID_CHARS"
    by (simp_all add: RANDOM_ID_LEN_def)
  from new_random_id_onto [OF this]
  show "xs \<in> {new_random_id RANDOM_ID_LEN rand | rand. \<forall>i<43. rand i < length ID_CHARS}"
    by blast
qed

lemma new_random_id_inj:
  assumes "\<forall>i<43. rand i < length ID_CHARS" and "\<forall>i<43. rand' i < length ID_CHARS"
    and "new_random_id RANDOM_ID_LEN rand = new_random_id RANDOM_ID_LEN rand'"
    and "i < 43"
  shows "rand i = rand' i"
proof -
  have "i < nat RANDOM_ID_LEN" using assms(4) by (simp add: RANDOM_ID_LEN_def)
  then have "ID_CHARS ! rand i = ID_CHARS ! rand' i"
    using assms(3) new_random_id_nth [of i RANDOM_ID_LEN] by metis
  then show ?thesis
    using assms(1,2,4) distinct_ID_CHARS by (simp add: nth_eq_iff_index_eq)
qed

lemma encode_range: "range encode = set STATUSES"
proof -
  have "UNIV = {NEW, SHOUTING, ERROR, FATAL, SUCCESS}"
    using status_enum.exhaust by auto
  then have "range encode = encode ` {NEW, SHOUTING, ERROR, FATAL, SUCCESS}" by simp
  then show ?thesis by (simp add: encode_simps STATUSES_def)
qed

subsection \<open>Facts about the query\<close>

lemma insert_desc_not_Nil: "insert_desc e xs \<noteq> []"
  by (cases xs) auto

lemma hd_insert_desc:
  "hd (insert_desc e xs) = (if xs \<noteq> [] \<and> status e < status (hd xs) then hd xs else e)"
  by (cases xs) auto

lemma order_desc_status_Nil: "(order_desc_status es = []) = (es = [])"
  by (cases es) (auto simp: order_desc_status_def insert_desc_not_Nil)

lemma hd_order_desc_status:
  assumes "es \<noteq> []"
  shows "hd (order_desc_status es) \<in> set es \<and>
         (\<forall>x \<in> set es. status x \<le> status (hd (order_desc_status es)))"
  using assms
proof (induction es)
  case Nil
  then show ?case by simp
next
  case (Cons e es)
  have unfold: "order_desc_status (e # es) = insert_desc e (order_desc_status es)"
    by (simp add: order_desc_status_def)
  show ?case
  proof (cases "es = []")
    case True
    then show ?thesis by (simp add: order_desc_status_def)
  next
    case False
    then have ne: "order_desc_status es \<noteq> []" by (simp add: order_desc_status_Nil)
    from False Cons.IH
    have ih: "hd (order_desc_status es) \<in> set es"
      "\<forall>x \<in> set es. status x \<le> status (hd (order_desc_status es))" by auto
    show ?thesis
    proof (cases "status e < status (hd (order_desc_status es))")
      case True
      then have "hd (order_desc_status (e # es)) = hd (order_desc_status es)"
        using ne by (simp add: unfold hd_insert_desc)
      then show ?thesis using ih True by auto
    next
      case False
      then have h: "hd (order_desc_status (e # es)) = e"
        by (simp add: unfold hd_insert_desc)
      from False have "status (hd (order_desc_status es)) \<le> status e" by simp
      then show ?thesis using ih h by (auto intro: order_trans)
    qed
  qed
qed

lemma latest_eq:
  "latest ds k =
     (if filter_shout_id k ds = [] then None
      else Some (hd (order_desc_status (filter_shout_id k ds))))"
proof (cases "order_desc_status (filter_shout_id k ds)")
  case Nil
  moreover from Nil have "filter_shout_id k ds = []"
    by (simp add: order_desc_status_Nil)
  ultimately show ?thesis
    by (simp add: latest_def query_status_def fetch_def)
next
  case (Cons y ys)
  then have "order_desc_status (filter_shout_id k ds) \<noteq> []" by simp
  then have "filter_shout_id k ds \<noteq> []"
    by (simp add: order_desc_status_Nil)
  then show ?thesis using Cons
    by (simp add: latest_def query_status_def fetch_def)
qed

lemma latest_None: "(latest ds k = None) = (\<forall>e \<in> set ds. combined_shout_id e \<noteq> k)"
  by (auto simp: latest_eq filter_shout_id_def filter_empty_conv)

lemma latest_Some:
  assumes "latest ds k = Some e"
  shows "e \<in> set ds" and "combined_shout_id e = k"
    and "\<And>x. x \<in> set ds \<Longrightarrow> combined_shout_id x = k \<Longrightarrow> status x \<le> status e"
proof -
  from assms have ne: "filter_shout_id k ds \<noteq> []"
    and e: "e = hd (order_desc_status (filter_shout_id k ds))"
    by (auto simp: latest_eq split: if_splits)
  from hd_order_desc_status [OF ne] e
  have m: "e \<in> set (filter_shout_id k ds)"
    and b: "\<forall>x \<in> set (filter_shout_id k ds). status x \<le> status e" by auto
  from m show "e \<in> set ds" "combined_shout_id e = k" by (auto simp: filter_shout_id_def)
  fix x assume "x \<in> set ds" "combined_shout_id x = k"
  then have "x \<in> set (filter_shout_id k ds)" by (simp add: filter_shout_id_def)
  with b show "status x \<le> status e" by blast
qed




lemma latest_two:
  "combined_shout_id x = k \<Longrightarrow> combined_shout_id y = k \<Longrightarrow>
   latest [x, y] k = (if status x < status y then Some y else Some x)"
  by (simp add: latest_def query_status_def fetch_def order_desc_status_def
      filter_shout_id_def)

subsection \<open>Facts about the token manager\<close>

lemma take_append_take: "take n (xs @ take n ys) = take n (xs @ ys)"
  by (simp add: min_def)

lemma get_tokens_init:
  "store (datastore_key self) = None \<Longrightarrow> get_tokens self (init self t0 store) = Inr [t0]"
  by (simp add: get_tokens_def init_def)

lemma rotate_token_get_tokens:
  assumes "get_tokens self store = Inr ts" and "0 \<le> max_tokens self"
  shows "\<exists>store'. rotate_token self t store = Inr store' \<and>
           get_tokens self store' = Inr (take (nat (max_tokens self)) (t # ts))"
  using assms
  by (auto simp: get_tokens_def rotate_token_def del_from_def split: option.splits)

lemma rotate_tokens_get_tokens:
  assumes "get_tokens self store = Inr ts" and "0 \<le> max_tokens self"
    and "length ts \<le> nat (max_tokens self)"
  shows "\<exists>store'. rotate_tokens self news store = Inr store' \<and>
           get_tokens self store' = Inr (take (nat (max_tokens self)) (rev news @ ts))"
  using assms
proof (induction news arbitrary: store ts)
  case Nil
  then show ?case by simp
next
  case (Cons t news)
  from rotate_token_get_tokens [OF Cons.prems(1,2), of t]
  obtain store1 where r: "rotate_token self t store = Inr store1"
    and g: "get_tokens self store1 = Inr (take (nat (max_tokens self)) (t # ts))" by blast
  have "length (take (nat (max_tokens self)) (t # ts)) \<le> nat (max_tokens self)" by simp
  from Cons.IH [OF g Cons.prems(2) this]
  obtain store2 where r2: "rotate_tokens self news store1 = Inr store2"
    and g2: "get_tokens self store2 =
       Inr (take (nat (max_tokens self))
         (rev news @ take (nat (max_tokens self)) (t # ts)))"
    by blast
  from g2 have "get_tokens self store2 =
      Inr (take (nat (max_tokens self)) (rev (t # news) @ ts))"
    by (simp only: take_append_take) simp
  with r r2 show ?case by simp
qed

subsection \<open>Facts about the handlers\<close>

lemma STATUS_MAP_cases:
  assumes "STATUS_MAP n = Some code"
  shows "(n = ''new'' \<and> code = ''a-new'') \<or> (n = ''shouting'' \<and> code = ''b-shouting'') \<or>
         (n = ''error'' \<and> code = ''c-error'') \<or> (n = ''fatal'' \<and> code = ''d-fatal'') \<or>
         (n = ''success'' \<and> code = ''e-success'')"
  using assms by (simp add: STATUS_MAP_def STATUSES_def split: if_splits)

lemma set_put: "set (put now pos e ds) = insert (e\<lparr>timestamp := now\<rparr>) (set ds)"
proof -
  have "set ds = set (take pos ds @ drop pos ds)" by simp
  also have "\<dots> = set (take pos ds) \<union> set (drop pos ds)" by (rule set_append)
  finally show ?thesis by (auto simp: put_def)
qed

lemma STATUS_MAP_valid:
  assumes "STATUS_MAP n = Some code"
  shows "indexed_ok (Some code) \<and> choices_ok (Some code)"
  using STATUS_MAP_cases [OF assms]
  by (auto simp: indexed_ok_def choices_ok_def MAX_STRING_LENGTH_def STATUSES_def)

lemma post_shout_status_Inl:
  assumes "fst (post_shout_status purse req now pos srv) = Inl err"
  shows "snd (post_shout_status purse req now pos srv) = srv"
  using assms
  by (auto simp: post_shout_status_def Let_def split: sum.splits option.splits if_splits)

lemma post_shout_status_Inr:
  assumes "fst (post_shout_status purse req now pos srv) = Inr body"
  shows "\<exists>toks t b s n code.
           get_tokens purse (purse_store srv) = Inr toks \<and>
           form req ''token'' = Some t \<and> t \<in> set toks \<and>
           args req ''browserId'' = Some b \<and> args req ''shoutId'' = Some s \<and>
           form req ''status'' = Some n \<and> STATUS_MAP n = Some code \<and>
           indexed_ok (Some (combine_ids b s)) \<and> indexed_ok (form req ''host'') \<and>
           (n = ''error'' \<or> n = ''fatal'' \<longrightarrow> indexed_ok (form req ''result''))"
  using assms
  by (auto simp: post_shout_status_def Let_def split: sum.splits option.splits if_splits)

lemma post_shout_status_accept:
  assumes "get_tokens purse (purse_store srv) = Inr toks"
    and "form req ''token'' = Some t" and "t \<in> set toks"
    and "args req ''browserId'' = Some b" and "args req ''shoutId'' = Some s"
    and "form req ''status'' = Some n" and "STATUS_MAP n = Some code"
    and "indexed_ok (Some (combine_ids b s))" and "indexed_ok (form req ''host'')"
    and "n = ''error'' \<or> n = ''fatal'' \<longrightarrow> indexed_ok (form req ''result'')"
  shows "post_shout_status purse req now pos srv =
     (Inr ''{}'',
      srv\<lparr>log := put now pos
         \<lparr>combined_shout_id = combine_ids b s, status = Some code, timestamp = 0,
          error = (if n = ''error'' \<or> n = ''fatal'' then form req ''result'' else None),
          result = (if n = ''error'' \<or> n = ''fatal'' then None else form req ''result''),
          host = form req ''host''\<rparr> (log srv)\<rparr>)"
  using assms STATUS_MAP_valid [OF assms(7)]
  by (auto simp: post_shout_status_def Let_def new_entity_def)

lemma post_shout_status_oversize:
  assumes "get_tokens purse (purse_store srv) = Inr toks"
    and "form req ''token'' = Some t" and "t \<in> set toks"
    and "args req ''browserId'' = Some b" and "args req ''shoutId'' = Some s"
    and "form req ''status'' = Some n" and "STATUS_MAP n = Some code"
    and "\<not> (indexed_ok (Some (combine_ids b s)) \<and> indexed_ok (form req ''host'') \<and>
            (n = ''error'' \<or> n = ''fatal'' \<longrightarrow> indexed_ok (form req ''result'')))"
  shows "post_shout_status purse req now pos srv = (Inl BadValueError, srv)"
  using assms STATUS_MAP_valid [OF assms(7)]
  by (auto simp: post_shout_status_def Let_def)

lemma post_shout_status_reject:
  assumes "get_tokens purse (purse_store srv) = Inr toks"
    and "\<not> (\<exists>t. form req ''token'' = Some t \<and> t \<in> set toks)"
  shows "post_shout_status purse req now pos srv = (Inl (Abort 403), srv)"
  using assms by (auto simp: post_shout_status_def split: option.splits)

lemma post_shout_status_log:
  assumes "e \<in> set (log (snd (post_shout_status purse req now pos srv)))"
  shows "e \<in> set (log srv) \<or> fields_ok e"
proof (cases "fst (post_shout_status purse req now pos srv)")
  case (Inl err)
  from post_shout_status_Inl [OF this] assms show ?thesis by simp
next
  case (Inr body)
  from post_shout_status_Inr [OF this]
  obtain toks t b s n code where h: "get_tokens purse (purse_store srv) = Inr toks"
    "form req ''token'' = Some t" "t \<in> set toks"
    "args req ''browserId'' = Some b" "args req ''shoutId'' = Some s"
    "form req ''status'' = Some n" "STATUS_MAP n = Some code"
    "indexed_ok (Some (combine_ids b s))" "indexed_ok (form req ''host'')"
    "n = ''error'' \<or> n = ''fatal'' \<longrightarrow> indexed_ok (form req ''result'')" by blast
  from assms have "e \<in> set (log srv) \<or>
      e = \<lparr>combined_shout_id = combine_ids b s, status = Some code, timestamp = now,
          error = (if n = ''error'' \<or> n = ''fatal'' then form req ''result'' else None),
          result = (if n = ''error'' \<or> n = ''fatal'' then None else form req ''result''),
          host = form req ''host''\<rparr>"
    by (auto simp: post_shout_status_accept [OF h] set_put)
  with STATUS_MAP_cases [OF h(7)] show ?thesis
    by (auto simp: fields_ok_def STATUSES_def)
qed

lemma shout_put_log:
  assumes "e \<in> set (log (snd (shout_put url_decode req hostname now pos srv)))"
  shows "e \<in> set (log srv) \<or> fields_ok e"
  using assms
  by (auto simp: shout_put_def Let_def STATUS_MAP_values set_put fields_ok_def new_entity_def
      STATUSES_def split: option.splits if_splits)

lemma reachable_fields_ok:
  assumes "reachable purse srv"
  shows "\<forall>e \<in> set (log srv). fields_ok e"
  using assms
proof (induction rule: reachable.induct)
  case reach_empty
  then show ?case by simp
next
  case (reach_init srv t)
  then show ?case by simp
next
  case (reach_rotate srv t store')
  then show ?case by simp
next
  case (reach_shout srv url_decode request hostname now pos)
  then show ?case using shout_put_log by blast
next
  case (reach_post srv request now pos)
  then show ?case using post_shout_status_log by blast
next
  case (reach_purge srv utcnow)
  then show ?case by (simp add: purge_def)
qed


lemma reachable_srv0: "reachable purse0 srv0"
proof -
  have a: "reachable purse0
      (\<lparr>log = [], purse_store = Map.empty\<rparr>
         \<lparr>purse_store := init purse0 ''tokA'' Map.empty\<rparr>)"
    using reach_init [OF reach_empty, of purse0 "''tokA''"] by simp
  have r: "rotate_token purse0 ''tokB'' (init purse0 ''tokA'' Map.empty)
      = Inr [''v1'' \<mapsto> \<lparr>tokens = [''tokB'', ''tokA'']\<rparr>]"
    by (simp add: rotate_token_def init_def purse0_def Rotoken_default_def del_from_def)
  from reach_rotate [OF a, of "''tokB''" "[''v1'' \<mapsto> \<lparr>tokens = [''tokB'', ''tokA'']\<rparr>]"] r
  show ?thesis by (simp add: srv0_def)
qed

lemma get_tokens_srv0: "get_tokens purse0 (purse_store srv0) = Inr [''tokB'', ''tokA'']"
  by (simp add: get_tokens_def purse0_def srv0_def Rotoken_default_def)

subsection \<open>Facts about the poll loop\<close>



lemma look_up_latest:
  "look_up ds b s known response =
     (case latest ds (combine_ids b s) of
        None \<Rightarrow> Unchanged response
      | Some entity \<Rightarrow>
          (case status_name entity of
             Inl err \<Rightarrow> Raised err
           | Inr st \<Rightarrow>
               if st = ''success''
               then Returned (response(''status'' \<mapsto> JStr st, ''result'' \<mapsto> json_opt (result entity)))
               else if st = ''fatal''
               then Returned (response(''status'' \<mapsto> JStr st, ''error'' \<mapsto> json_opt (error entity)))
               else if known \<noteq> st
               then Broke (response(''status'' \<mapsto> JStr st, ''error'' \<mapsto> json_opt (error entity)))
               else Unchanged (response(''status'' \<mapsto> JStr st))))"
  by (simp add: look_up_def latest_def Let_def split: list.splits sum.splits)





lemma status_name_simps:
  "status e = Some ''a-new'' \<Longrightarrow> status_name e = Inr ''new''"
  "status e = Some ''b-shouting'' \<Longrightarrow> status_name e = Inr ''shouting''"
  "status e = Some ''c-error'' \<Longrightarrow> status_name e = Inr ''error''"
  "status e = Some ''d-fatal'' \<Longrightarrow> status_name e = Inr ''fatal''"
  "status e = Some ''e-success'' \<Longrightarrow> status_name e = Inr ''success''"
  by (simp_all add: status_name_def)

lemma status_choices_cases:
  assumes "status_choices e"
  shows "status e = None \<or> status e = Some ''a-new'' \<or> status e = Some ''b-shouting'' \<or>
         status e = Some ''c-error'' \<or> status e = Some ''d-fatal'' \<or>
         status e = Some ''e-success''"
  using assms by (cases "status e") (auto simp: status_choices_def STATUSES_def)

lemma terminal_status:
  assumes "status_choices e" and "Some ''d-fatal'' \<le> status e"
  shows "status e = Some ''d-fatal'' \<or> status e = Some ''e-success''"
  using status_choices_cases [OF assms(1)] assms(2) by (elim disjE) simp_all

lemma success_status:
  assumes "status_choices e" and "Some ''e-success'' \<le> status e"
  shows "status e = Some ''e-success''"
  using status_choices_cases [OF assms(1)] assms(2) by (elim disjE) simp_all

lemma look_up_shape:
  assumes "fresh_response known response"
  shows "case look_up ds b s known response of
           Raised err \<Rightarrow> True
         | Returned r \<Rightarrow> left_shape known (Return r)
         | Broke r \<Rightarrow> left_shape known (Break r)
         | Unchanged r \<Rightarrow> r = response"
proof (cases "latest ds (combine_ids b s)")
  case None
  then show ?thesis by (simp add: look_up_latest)
next
  case (Some e)
  show ?thesis
  proof (cases "status_name e")
    case (Inl err)
    with Some show ?thesis by (simp add: look_up_latest)
  next
    case (Inr st)
    have "response(''status'' \<mapsto> JStr known) = response"
      using assms by (simp add: fresh_response_def map_upd_triv)
    with Some Inr assms show ?thesis
      by (auto simp: look_up_latest left_shape_def fresh_response_def)
  qed
qed

lemma poll_loop_shape:
  assumes a: "poll_loop w b s known response sl i slept = Some y"
  shows "fresh_response known response \<longrightarrow>
           (case fst y of Inl err \<Rightarrow> True | Inr l \<Rightarrow> left_shape known l)"
proof (rule poll_loop.raw_induct
    [where P = "\<lambda>w b s known response sl i slept y.
       fresh_response known response \<longrightarrow>
           (case fst y of Inl err \<Rightarrow> True | Inr l \<Rightarrow> left_shape known l)", OF _ a])
  fix lp w b s known response sl i slept y
  assume ih: "\<And>w b s known response sl i slept y.
      lp w b s known response sl i slept = Some y \<Longrightarrow>
      fresh_response known response \<longrightarrow>
           (case fst y of Inl err \<Rightarrow> True | Inr l \<Rightarrow> left_shape known l)"
    and body: "(case look_up (datastore_at w i) b s known response of
        Raised err \<Rightarrow> Some (Inl err, slept)
      | Returned response \<Rightarrow> Some (Inr (Return response), slept)
      | Broke response \<Rightarrow> Some (Inr (Break response), slept)
      | Unchanged response \<Rightarrow>
          (if time_at w i - start_timestamp w \<ge> 45
           then Some (Inr (Break response), slept)
           else lp w b s known response
                  (min 5 (sl * 2)) (Suc i) (slept @ [sl]))) = Some y"
  show "fresh_response known response \<longrightarrow>
           (case fst y of Inl err \<Rightarrow> True | Inr l \<Rightarrow> left_shape known l)"
  proof
    assume f: "fresh_response known response"
    note sh = look_up_shape [OF f, of "datastore_at w i" b s]
    show "case fst y of Inl err \<Rightarrow> True | Inr l \<Rightarrow> left_shape known l"
    proof (cases "look_up (datastore_at w i) b s known response")
      case (Raised err)
      with body show ?thesis by auto
    next
      case (Returned r)
      with body sh show ?thesis by auto
    next
      case (Broke r)
      with body sh show ?thesis by auto
    next
      case (Unchanged r)
      with sh have r: "r = response" by simp
      show ?thesis
      proof (cases "45 \<le> time_at w i - start_timestamp w")
        case True
        with body Unchanged r have "fst y = Inr (Break response)" by auto
        with f show ?thesis by (simp add: left_shape_def fresh_response_def)
      next
        case False
        with body Unchanged r
        have "lp w b s known response (min 5 (sl * 2)) (Suc i) (slept @ [sl]) = Some y"
          by simp
        from ih [OF this] f show ?thesis by simp
      qed
    qed
  qed
qed

lemma fresh_response_initial:
  "fresh_response known [''shoutId'' \<mapsto> JStr s, ''status'' \<mapsto> JStr known]"
  by (simp add: fresh_response_def)

lemma next_link_Inr:
  assumes "next_link b s response = Inr r"
  shows "r ''nextLink'' \<noteq> None \<and> r ''status'' = response ''status'' \<and>
         r ''result'' = response ''result'' \<and> r ''error'' = response ''error''"
  using assms by (auto simp: next_link_def split: option.splits)

lemma poll_world_done:
  "poll_shout_status world_done ''B'' ''7'' ''new'' =
     Some (Inr ([''shoutId'' \<mapsto> JStr ''7'', ''status'' \<mapsto> JStr ''success'',
                 ''result'' \<mapsto> JStr ''HELLO''], 200), [])"
proof -
  have l: "latest [evN, evS] ''B-7'' = Some evS"
    by (simp add: latest_two evN_def evS_def)
  have n: "status_name evS = Inr ''success''" "result evS = Some ''HELLO''"
    by (simp_all add: status_name_simps evS_def)
  have "look_up (datastore_at world_done 0) ''B'' ''7'' ''new''
      [''shoutId'' \<mapsto> JStr ''7'', ''status'' \<mapsto> JStr ''new'']
     = Returned [''shoutId'' \<mapsto> JStr ''7'', ''status'' \<mapsto> JStr ''success'',
                 ''result'' \<mapsto> JStr ''HELLO'']"
    by (simp add: look_up_latest world_done_def combine_ids_def l n json_opt_def)
  then show ?thesis
    by (simp add: poll_shout_status_def poll_loop.simps [of world_done])
qed

section \<open>The claims\<close>

subsection \<open>Random ids\<close>

text \<open>
  Claim C9. \<open>new_random_id\<close> with the default length returns a string of exactly 43
  characters, the \<open>i\<close>-th of them the member of \<open>ID_CHARS\<close> at the position of the \<open>i\<close>-th
  draw; so each is one of the 62 distinct ASCII letters and digits as long as every draw
  picks a position inside the alphabet, which is what \<^verbatim>\<open>rand.choice\<close> does. Different
  draws give different ids, and the ids that such draws can produce are exactly the
  strings of 43 characters over \<open>ID_CHARS\<close>: there are \<open>62 ^ 43\<close> of them, more than
  \<open>2 ^ 256\<close>, the assertion of line 78. Nothing is said about how the draws are
  distributed.
\<close>

theorem new_random_id_default:
  "length (new_random_id RANDOM_ID_LEN rand) = 43 \<and>
   (\<forall>i<43. new_random_id RANDOM_ID_LEN rand ! i = ID_CHARS ! rand i) \<and>
   ((\<forall>i<43. rand i < length ID_CHARS) \<longrightarrow>
      set (new_random_id RANDOM_ID_LEN rand) \<subseteq> set ID_CHARS) \<and>
   ((\<forall>i<43. rand i < length ID_CHARS) \<and> (\<forall>i<43. rand' i < length ID_CHARS) \<and>
    new_random_id RANDOM_ID_LEN rand = new_random_id RANDOM_ID_LEN rand' \<longrightarrow>
      (\<forall>i<43. rand i = rand' i)) \<and>
   length ID_CHARS = 62 \<and> distinct ID_CHARS \<and>
   ID_CHARS = ''abcdefghijklmnopqrstuvwxyzABCDEFGHIJKLMNOPQRSTUVWXYZ0123456789'' \<and>
   {new_random_id RANDOM_ID_LEN r | r. \<forall>i<43. r i < length ID_CHARS}
     = {xs. set xs \<subseteq> set ID_CHARS \<and> length xs = 43} \<and>
   card {new_random_id RANDOM_ID_LEN r | r. \<forall>i<43. r i < length ID_CHARS}
     = length ID_CHARS ^ nat RANDOM_ID_LEN \<and>
   (2::nat) ^ 256 < length ID_CHARS ^ nat RANDOM_ID_LEN \<and>
   (2::nat) ^ 256 < card {new_random_id RANDOM_ID_LEN r | r. \<forall>i<43. r i < length ID_CHARS}"
proof -
  have a: "length (new_random_id RANDOM_ID_LEN rand) = 43"
    by (simp add: new_random_id_length RANDOM_ID_LEN_def)
  have n: "\<forall>i<43. new_random_id RANDOM_ID_LEN rand ! i = ID_CHARS ! rand i"
    by (simp add: new_random_id_nth RANDOM_ID_LEN_def)
  have b: "(\<forall>i<43. rand i < length ID_CHARS) \<longrightarrow>
      set (new_random_id RANDOM_ID_LEN rand) \<subseteq> set ID_CHARS"
    using new_random_id_set [of RANDOM_ID_LEN rand] by (simp add: RANDOM_ID_LEN_def)
  have j: "(\<forall>i<43. rand i < length ID_CHARS) \<and> (\<forall>i<43. rand' i < length ID_CHARS) \<and>
    new_random_id RANDOM_ID_LEN rand = new_random_id RANDOM_ID_LEN rand' \<longrightarrow>
      (\<forall>i<43. rand i = rand' i)"
    using new_random_id_inj [of rand rand'] by blast
  have l: "ID_CHARS = ''abcdefghijklmnopqrstuvwxyzABCDEFGHIJKLMNOPQRSTUVWXYZ0123456789''"
    by (simp add: ID_CHARS_def ascii_letters_def ascii_lowercase_def ascii_uppercase_def
        digits_def)
  have c: "(2::nat) ^ 256 < length ID_CHARS ^ nat RANDOM_ID_LEN"
    by (simp add: ID_CHARS_length RANDOM_ID_LEN_def)
  have k: "card {new_random_id RANDOM_ID_LEN r | r. \<forall>i<43. r i < length ID_CHARS}
     = length ID_CHARS ^ nat RANDOM_ID_LEN"
    by (simp only: new_random_id_outputs id_space) (simp add: ID_CHARS_length RANDOM_ID_LEN_def)
  have d: "(2::nat) ^ 256 < card {new_random_id RANDOM_ID_LEN r | r. \<forall>i<43. r i < length ID_CHARS}"
    using c k by simp
  from a n b j l c k d new_random_id_outputs ID_CHARS_length distinct_ID_CHARS
  show ?thesis by blast
qed

theorem new_random_id_default_witness:
  "new_random_id RANDOM_ID_LEN (\<lambda>i. (i * 7) mod 62) ! 0 = CHR ''a'' \<and>
   new_random_id RANDOM_ID_LEN (\<lambda>i. (i * 7) mod 62) ! 5 = CHR ''J'' \<and>
   new_random_id RANDOM_ID_LEN (\<lambda>i. (i * 7) mod 62) ! 42 = CHR ''U'' \<and>
   length (new_random_id RANDOM_ID_LEN (\<lambda>i. (i * 7) mod 62)) = 43 \<and>
   set (new_random_id RANDOM_ID_LEN (\<lambda>i. (i * 7) mod 62)) \<subseteq> set ID_CHARS"
proof -
  have h: "\<forall>i<43. (\<lambda>i. (i * 7) mod 62) i < length ID_CHARS" by (simp add: ID_CHARS_length)
  note t = new_random_id_default [of "\<lambda>i. (i * 7) mod 62"]
  have l: "ID_CHARS = ''abcdefghijklmnopqrstuvwxyzABCDEFGHIJKLMNOPQRSTUVWXYZ0123456789''"
    using t by blast
  have s: "set (new_random_id RANDOM_ID_LEN (\<lambda>i. (i * 7) mod 62)) \<subseteq> set ID_CHARS"
    using t h by blast
  have n: "\<forall>i<43. new_random_id RANDOM_ID_LEN (\<lambda>i. (i * 7) mod 62) ! i
      = ID_CHARS ! ((i * 7) mod 62)"
    using t by blast
  have "new_random_id RANDOM_ID_LEN (\<lambda>i. (i * 7) mod 62) ! 0 = CHR ''a''"
    "new_random_id RANDOM_ID_LEN (\<lambda>i. (i * 7) mod 62) ! 5 = CHR ''J''"
    "new_random_id RANDOM_ID_LEN (\<lambda>i. (i * 7) mod 62) ! 42 = CHR ''U''"
    using n by (simp_all add: l)
  moreover have "length (new_random_id RANDOM_ID_LEN (\<lambda>i. (i * 7) mod 62)) = 43"
    using t by blast
  ultimately show ?thesis using s by blast
qed

subsection \<open>Combined ids\<close>

text \<open>
  Claim C10. On browser ids written in \<open>ID_CHARS\<close> (which has no dash) and shout ids
  without a dash, \<open>combine_ids\<close> is injective: equal combined keys come from equal
  browser ids and equal shout ids, so two different jobs never share a key of the log.
\<close>

theorem combine_ids_injective:
  assumes "set b1 \<subseteq> set ID_CHARS" and "set b2 \<subseteq> set ID_CHARS"
    and "CHR ''-'' \<notin> set s1" and "CHR ''-'' \<notin> set s2"
    and "combine_ids b1 s1 = combine_ids b2 s2"
  shows "b1 = b2 \<and> s1 = s2"
proof -
  have "CHR ''-'' \<notin> set b1" "CHR ''-'' \<notin> set b2"
    using assms(1,2) dash_not_ID_CHARS by auto
  then show ?thesis
    using assms(5) append_dash_inject [of b1 b2 s1 s2] by (simp add: combine_ids_def)
qed

theorem combine_ids_injective_witness:
  "combine_ids ''Bx9'' ''7'' = ''Bx9-7'' \<and> combine_ids ''Bx9'' ''7'' = combine_ids ''Bx9'' ''7''"
proof -
  have "set ''Bx9'' \<subseteq> set ID_CHARS"
    by (simp add: ID_CHARS_def ascii_letters_def ascii_lowercase_def ascii_uppercase_def
        digits_def)
  moreover have "CHR ''-'' \<notin> set ''7''" by simp
  ultimately have "''Bx9'' = ''Bx9'' \<and> ''7'' = ''7''"
    using combine_ids_injective [of "''Bx9''" "''Bx9''" "''7''" "''7''"] by simp
  then show ?thesis by (simp add: combine_ids_def)
qed

subsection \<open>The latest-status lookup\<close>




subsection \<open>The status encoding\<close>

text \<open>
  Claim C8. The prefixed strings of \<open>STATUSES\<close> are order-isomorphic to the enumeration
  \<open>NEW < SHOUTING < ERROR < FATAL < SUCCESS\<close>: one status has the higher priority exactly
  when its string is the greater one, and the strings of the enumeration are exactly the
  members of \<open>STATUSES\<close>. So the descending sort of the query returns an event of the
  highest priority: no event of the key has a priority above the one returned.
\<close>

theorem status_encoding_order_isomorphic:
  "(priority a < priority b) = (encode a < encode b) \<and>
   range encode = set STATUSES \<and>
   (latest ds k = Some e \<and> status e = Some (encode c) \<and>
    x \<in> set ds \<and> combined_shout_id x = k \<and> status x = Some (encode d)
      \<longrightarrow> priority d \<le> priority c)"
proof -
  have "priority d \<le> priority c"
    if l: "latest ds k = Some e" and "status e = Some (encode c)"
      and "x \<in> set ds" "combined_shout_id x = k" "status x = Some (encode d)"
  proof -
    from latest_Some(3) [OF l] that have "encode d \<le> encode c" by fastforce
    then have "\<not> encode c < encode d" by simp
    then show ?thesis by (simp add: encode_less_iff)
  qed
  then show ?thesis by (simp add: encode_less_iff encode_range)
qed

theorem status_encoding_order_isomorphic_witness:
  "priority NEW < priority SUCCESS \<and> encode NEW < encode SUCCESS \<and>
   latest [evN, evS] ''B-7'' = Some evS \<and> status evS = Some (encode SUCCESS) \<and>
   status evN = Some (encode NEW)"
proof -
  have l: "latest [evN, evS] ''B-7'' = Some evS"
    by (simp add: latest_two evN_def evS_def)
  have s: "status evS = Some (encode SUCCESS)" "status evN = Some (encode NEW)"
    "evN \<in> set [evN, evS]" "combined_shout_id evN = ''B-7''"
    by (simp_all add: evN_def evS_def encode_simps)
  have "priority NEW \<le> priority SUCCESS"
    using status_encoding_order_isomorphic
      [of NEW SUCCESS "[evN, evS]" "''B-7''" evS SUCCESS evN NEW] l s by blast
  moreover have "(priority NEW < priority SUCCESS) = (encode NEW < encode SUCCESS)"
    using status_encoding_order_isomorphic [of NEW SUCCESS] by blast
  ultimately show ?thesis using l s by simp
qed

subsection \<open>Token rotation\<close>

text \<open>
  Claim C6. With a \<open>max_tokens\<close> that is not negative, \<open>rotate_token\<close> puts the new token
  in front of the list and keeps the first \<open>max_tokens\<close> entries, newest first. For a
  store that \<open>init\<close> has just given its one token \<open>t0\<close>: when \<open>max_tokens\<close> is at least 2
  (the default is 3), \<open>t0\<close> is still among the tokens after one rotation; and after
  \<open>max_tokens\<close> rotations of new tokens, none of them \<open>t0\<close> again, \<open>t0\<close> is gone.
\<close>

theorem rotate_token_prepends_truncates:
  assumes "0 \<le> max_tokens self" and "store (datastore_key self) = None"
  shows
   "(get_tokens self st = Inr ts \<longrightarrow>
       (\<exists>st'. rotate_token self t st = Inr st' \<and>
              get_tokens self st' = Inr (take (nat (max_tokens self)) (t # ts)))) \<and>
    get_tokens self (init self t0 store) = Inr [t0] \<and>
    (2 \<le> max_tokens self \<longrightarrow>
       (\<exists>st'. rotate_token self t1 (init self t0 store) = Inr st' \<and>
              get_tokens self st' = Inr [t1, t0] \<and> t0 \<in> set [t1, t0])) \<and>
    (1 \<le> max_tokens self \<and> int (length news) = max_tokens self \<and> t0 \<notin> set news \<longrightarrow>
       (\<exists>st'. rotate_tokens self news (init self t0 store) = Inr st' \<and>
              get_tokens self st' = Inr (rev news) \<and> t0 \<notin> set (rev news)))"
proof -
  have i: "get_tokens self (init self t0 store) = Inr [t0]"
    using assms(2) by (rule get_tokens_init)
  have a: "\<exists>st'. rotate_token self t st = Inr st' \<and>
              get_tokens self st' = Inr (take (nat (max_tokens self)) (t # ts))"
    if "get_tokens self st = Inr ts"
    using rotate_token_get_tokens [OF that assms(1)] .
  have b: "\<exists>st'. rotate_token self t1 (init self t0 store) = Inr st' \<and>
              get_tokens self st' = Inr [t1, t0] \<and> t0 \<in> set [t1, t0]"
    if "2 \<le> max_tokens self"
  proof -
    from that have "take (nat (max_tokens self)) [t1, t0] = [t1, t0]" by simp
    with rotate_token_get_tokens [OF i assms(1), of t1] show ?thesis by simp
  qed
  have c: "\<exists>st'. rotate_tokens self news (init self t0 store) = Inr st' \<and>
              get_tokens self st' = Inr (rev news) \<and> t0 \<notin> set (rev news)"
    if "1 \<le> max_tokens self" "int (length news) = max_tokens self" "t0 \<notin> set news"
  proof -
    from that have l: "length [t0] \<le> nat (max_tokens self)" by simp
    from that have "take (nat (max_tokens self)) (rev news @ [t0]) = rev news" by simp
    with rotate_tokens_get_tokens [OF i assms(1) l, of news] that(3)
    show ?thesis by simp
  qed
  from i a b c show ?thesis by blast
qed

theorem rotate_token_prepends_truncates_witness:
  "max_tokens (Rotoken_default ''v1'') = 3 \<and>
   get_tokens (Rotoken_default ''v1'') (init (Rotoken_default ''v1'') ''t0'' Map.empty)
     = Inr [''t0''] \<and>
   (\<exists>st'. rotate_token (Rotoken_default ''v1'') ''t1''
            (init (Rotoken_default ''v1'') ''t0'' Map.empty) = Inr st' \<and>
          get_tokens (Rotoken_default ''v1'') st' = Inr [''t1'', ''t0'']) \<and>
   (\<exists>st'. rotate_tokens (Rotoken_default ''v1'') [''t1'', ''t2'', ''t3'']
            (init (Rotoken_default ''v1'') ''t0'' Map.empty) = Inr st' \<and>
          get_tokens (Rotoken_default ''v1'') st' = Inr [''t3'', ''t2'', ''t1''])"
proof -
  have h: "0 \<le> max_tokens (Rotoken_default ''v1'')"
    "Map.empty (datastore_key (Rotoken_default ''v1'')) = None"
    "2 \<le> max_tokens (Rotoken_default ''v1'')"
    "1 \<le> max_tokens (Rotoken_default ''v1'')"
    "int (length [''t1'', ''t2'', ''t3'']) = max_tokens (Rotoken_default ''v1'')"
    "''t0'' \<notin> set [''t1'', ''t2'', ''t3'']"
    "max_tokens (Rotoken_default ''v1'') = 3"
    by (simp_all add: Rotoken_default_def)
  from rotate_token_prepends_truncates
    [OF h(1,2), of Map.empty "[]" "''t1''" "''t0''" "''t1''" "[''t1'', ''t2'', ''t3'']"] h(3-7)
  show ?thesis by simp
qed

subsection \<open>The worker callback\<close>

text \<open>
  Claim C5, as amended. With a token list in the datastore, \<open>post_shout_status\<close> answers
  403 exactly when the presented token is not a member of the list (a missing token is
  not a member); whenever it fails, with 403 or otherwise, it leaves the server as it
  was, and the log changes only for a member. A request that names its job and a status
  of \<open>STATUS_MAP\<close>, and whose combined id, host and, for \<open>error\<close> and \<open>fatal\<close>, payload
  have at most 1500 bytes each, is accepted exactly when its token is a member, any
  member, and then the log gains exactly the event the worker described: the combined
  id, the stored status, the payload in \<open>error\<close> for \<open>error\<close> and \<open>fatal\<close> and in \<open>result\<close>
  otherwise, and the host. When one of those values is longer, the request of a member
  fails with \<^verbatim>\<open>BadValueError\<close> and nothing is written.
\<close>

theorem post_shout_status_authorization:
  assumes "get_tokens purse (purse_store srv) = Inr toks"
  shows
   "((fst (post_shout_status purse req now pos srv) = Inl (Abort 403)) =
       (\<not> (\<exists>t. form req ''token'' = Some t \<and> t \<in> set toks))) \<and>
    (\<forall>err. fst (post_shout_status purse req now pos srv) = Inl err \<longrightarrow>
       snd (post_shout_status purse req now pos srv) = srv) \<and>
    (snd (post_shout_status purse req now pos srv) \<noteq> srv \<longrightarrow>
       (\<exists>t. form req ''token'' = Some t \<and> t \<in> set toks)) \<and>
    (args req ''browserId'' = Some b \<and> args req ''shoutId'' = Some s \<and>
     form req ''status'' = Some n \<and> STATUS_MAP n = Some code \<longrightarrow>
       (length (combine_ids b s) \<le> 1500 \<and> indexed_ok (form req ''host'') \<and>
        (n = ''error'' \<or> n = ''fatal'' \<longrightarrow> indexed_ok (form req ''result'')) \<longrightarrow>
          ((fst (post_shout_status purse req now pos srv) = Inr ''{}'') =
             (\<exists>t. form req ''token'' = Some t \<and> t \<in> set toks)) \<and>
          ((\<exists>t. form req ''token'' = Some t \<and> t \<in> set toks) \<longrightarrow>
             post_shout_status purse req now pos srv =
               (Inr ''{}'',
                srv\<lparr>log := take pos (log srv) @
                   \<lparr>combined_shout_id = combine_ids b s, status = Some code,
                    timestamp = now,
                    error = (if n = ''error'' \<or> n = ''fatal''
                             then form req ''result'' else None),
                    result = (if n = ''error'' \<or> n = ''fatal''
                              then None else form req ''result''),
                    host = form req ''host''\<rparr> # drop pos (log srv)\<rparr>))) \<and>
       (\<not> (length (combine_ids b s) \<le> 1500 \<and> indexed_ok (form req ''host'') \<and>
           (n = ''error'' \<or> n = ''fatal'' \<longrightarrow> indexed_ok (form req ''result''))) \<and>
        (\<exists>t. form req ''token'' = Some t \<and> t \<in> set toks) \<longrightarrow>
          post_shout_status purse req now pos srv = (Inl BadValueError, srv)))"
proof -
  have unchanged: "\<forall>err. fst (post_shout_status purse req now pos srv) = Inl err \<longrightarrow>
       snd (post_shout_status purse req now pos srv) = srv"
    using post_shout_status_Inl by blast
  have size: "indexed_ok (Some (combine_ids b s)) = (length (combine_ids b s) \<le> 1500)"
    by (simp add: indexed_ok_def MAX_STRING_LENGTH_def)
  show ?thesis
  proof (cases "\<exists>t. form req ''token'' = Some t \<and> t \<in> set toks")
    case False
    from post_shout_status_reject [OF assms False]
    have "post_shout_status purse req now pos srv = (Inl (Abort 403), srv)" .
    with False show ?thesis by simp
  next
    case True
    then obtain t where t: "form req ''token'' = Some t" "t \<in> set toks" by blast
    have a: "fst (post_shout_status purse req now pos srv) \<noteq> Inl (Abort 403)"
      using assms t
      by (auto simp: post_shout_status_def Let_def split: sum.splits option.splits if_splits)
    have b: "post_shout_status purse req now pos srv =
               (Inr ''{}'',
                srv\<lparr>log := take pos (log srv) @
                   \<lparr>combined_shout_id = combine_ids b s, status = Some code,
                    timestamp = now,
                    error = (if n = ''error'' \<or> n = ''fatal''
                             then form req ''result'' else None),
                    result = (if n = ''error'' \<or> n = ''fatal''
                              then None else form req ''result''),
                    host = form req ''host''\<rparr> # drop pos (log srv)\<rparr>)"
      if "args req ''browserId'' = Some b" "args req ''shoutId'' = Some s"
        "form req ''status'' = Some n" "STATUS_MAP n = Some code"
        "length (combine_ids b s) \<le> 1500" "indexed_ok (form req ''host'')"
        "n = ''error'' \<or> n = ''fatal'' \<longrightarrow> indexed_ok (form req ''result'')"
      using post_shout_status_accept [OF assms t that(1-4)] that(5-7)
      by (simp add: put_def size)
    have c: "post_shout_status purse req now pos srv = (Inl BadValueError, srv)"
      if "args req ''browserId'' = Some b" "args req ''shoutId'' = Some s"
        "form req ''status'' = Some n" "STATUS_MAP n = Some code"
        "\<not> (length (combine_ids b s) \<le> 1500 \<and> indexed_ok (form req ''host'') \<and>
           (n = ''error'' \<or> n = ''fatal'' \<longrightarrow> indexed_ok (form req ''result'')))"
      using post_shout_status_oversize [OF assms t that(1-4)] that(5)
      by (simp add: size)
    from a b c True unchanged show ?thesis by auto
  qed
qed

theorem post_shout_status_authorization_witness:
  "post_shout_status purse0 req_success 9 0 srv0 =
     (Inr ''{}'',
      srv0\<lparr>log := [\<lparr>combined_shout_id = ''B-7'', status = Some ''e-success'', timestamp = 9,
                     error = None, result = Some ''HELLO'', host = Some ''win1''\<rparr>]\<rparr>) \<and>
   post_shout_status purse0 (req_success\<lparr>form := (form req_success)(''token'' \<mapsto> ''tok0'')\<rparr>)
       9 0 srv0 = (Inl (Abort 403), srv0)"
proof -
  have h: "args req_success ''browserId'' = Some ''B'' \<and>
     args req_success ''shoutId'' = Some ''7'' \<and>
     form req_success ''status'' = Some ''success'' \<and>
     STATUS_MAP ''success'' = Some ''e-success''"
    "length (combine_ids ''B'' ''7'') \<le> 1500 \<and> indexed_ok (form req_success ''host'') \<and>
        (''success'' = ''error'' \<or> ''success'' = ''fatal'' \<longrightarrow>
           indexed_ok (form req_success ''result''))"
    "\<exists>t. form req_success ''token'' = Some t \<and> t \<in> set [''tokB'', ''tokA'']"
    by (simp_all add: req_success_def STATUS_MAP_values combine_ids_def indexed_ok_def
        MAX_STRING_LENGTH_def)
  from post_shout_status_authorization
    [OF get_tokens_srv0, where req = req_success and b = "''B''" and s = "''7''"
      and n = "''success''" and code = "''e-success''" and now = 9 and pos = 0] h
  have "post_shout_status purse0 req_success 9 0 srv0 =
     (Inr ''{}'',
      srv0\<lparr>log := take 0 (log srv0) @
         \<lparr>combined_shout_id = combine_ids ''B'' ''7'', status = Some ''e-success'',
          timestamp = 9,
          error = (if ''success'' = ''error'' \<or> ''success'' = ''fatal''
                   then form req_success ''result'' else None),
          result = (if ''success'' = ''error'' \<or> ''success'' = ''fatal''
                    then None else form req_success ''result''),
          host = form req_success ''host''\<rparr> # drop 0 (log srv0)\<rparr>)"
    by blast
  then have a: "post_shout_status purse0 req_success 9 0 srv0 =
     (Inr ''{}'',
      srv0\<lparr>log := [\<lparr>combined_shout_id = ''B-7'', status = Some ''e-success'', timestamp = 9,
                     error = None, result = Some ''HELLO'', host = Some ''win1''\<rparr>]\<rparr>)"
    by (simp add: req_success_def combine_ids_def srv0_def)
  have n: "\<not> (\<exists>t. form (req_success\<lparr>form := (form req_success)(''token'' \<mapsto> ''tok0'')\<rparr>)
       ''token'' = Some t \<and> t \<in> set [''tokB'', ''tokA''])"
    by simp
  from post_shout_status_authorization
    [OF get_tokens_srv0,
      where req = "req_success\<lparr>form := (form req_success)(''token'' \<mapsto> ''tok0'')\<rparr>"
      and now = 9 and pos = 0] n
  have "fst (post_shout_status purse0
          (req_success\<lparr>form := (form req_success)(''token'' \<mapsto> ''tok0'')\<rparr>) 9 0 srv0)
        = Inl (Abort 403) \<and>
        snd (post_shout_status purse0
          (req_success\<lparr>form := (form req_success)(''token'' \<mapsto> ''tok0'')\<rparr>) 9 0 srv0) = srv0"
    by blast
  then have b: "post_shout_status purse0
       (req_success\<lparr>form := (form req_success)(''token'' \<mapsto> ''tok0'')\<rparr>) 9 0 srv0
       = (Inl (Abort 403), srv0)"
    by (simp add: prod_eq_iff)
  from a b show ?thesis by simp
qed

text \<open>
  The claim as stated fails: a worker that presents a current token and reports an
  \<open>error\<close> with a message of 1501 bytes is not accepted. The assignment of line 282
  raises, and no event is written.
\<close>

theorem member_with_long_error_refused:
  "get_tokens purse0 (purse_store srv0) = Inr [''tokB'', ''tokA''] \<and>
   form req_long_error ''token'' = Some ''tokA'' \<and>
   ''tokA'' \<in> set [''tokB'', ''tokA''] \<and>
   post_shout_status purse0 req_long_error 9 0 srv0 = (Inl BadValueError, srv0)"
proof -
  have f: "form req_long_error ''token'' = Some ''tokA''"
    "args req_long_error ''browserId'' = Some ''B''"
    "args req_long_error ''shoutId'' = Some ''7''"
    "form req_long_error ''status'' = Some ''error''"
    "form req_long_error ''result'' = Some (replicate 1501 CHR ''x'')"
    by (simp_all add: req_long_error_def)
  have m: "''tokA'' \<in> set [''tokB'', ''tokA'']" by simp
  have o: "\<not> (indexed_ok (Some (combine_ids ''B'' ''7'')) \<and>
      indexed_ok (form req_long_error ''host'') \<and>
      (''error'' = ''error'' \<or> ''error'' = ''fatal'' \<longrightarrow>
         indexed_ok (form req_long_error ''result'')))"
    by (simp add: f indexed_ok_def MAX_STRING_LENGTH_def)
  from post_shout_status_oversize
    [OF get_tokens_srv0 f(1) m f(2,3,4) STATUS_MAP_values(3) o]
  show ?thesis using get_tokens_srv0 f(1) by simp
qed

subsection \<open>The fields of written events\<close>

text \<open>
  Claim C7, as amended. In every event that job submission or the worker callback has
  written, \<open>error\<close> is populated only when the status is \<open>ERROR\<close> or \<open>FATAL\<close>, and \<open>result\<close>
  is populated only when the status is not \<open>ERROR\<close> or \<open>FATAL\<close>, that is \<open>NEW\<close>, \<open>SHOUTING\<close>
  or \<open>SUCCESS\<close>.
\<close>

theorem written_events_error_result:
  assumes "reachable purse srv" and "e \<in> set (log srv)"
  shows "(error e \<noteq> None \<longrightarrow> status e = Some ''c-error'' \<or> status e = Some ''d-fatal'') \<and>
         (result e \<noteq> None \<longrightarrow>
            status e = Some ''a-new'' \<or> status e = Some ''b-shouting'' \<or>
            status e = Some ''e-success'')"
  using reachable_fields_ok [OF assms(1)] assms(2) by (simp add: fields_ok_def)

theorem written_events_error_result_witness:
  "reachable purse0 (snd (post_shout_status purse0 req_success 9 0 srv0)) \<and>
   log (snd (post_shout_status purse0 req_success 9 0 srv0)) =
     [\<lparr>combined_shout_id = ''B-7'', status = Some ''e-success'', timestamp = 9,
       error = None, result = Some ''HELLO'', host = Some ''win1''\<rparr>] \<and>
   status (hd (log (snd (post_shout_status purse0 req_success 9 0 srv0)))) = Some ''e-success''"
proof -
  have r: "reachable purse0 (snd (post_shout_status purse0 req_success 9 0 srv0))"
    using reach_post [OF reachable_srv0] .
  have l: "log (snd (post_shout_status purse0 req_success 9 0 srv0)) =
     [\<lparr>combined_shout_id = ''B-7'', status = Some ''e-success'', timestamp = 9,
       error = None, result = Some ''HELLO'', host = Some ''win1''\<rparr>]"
    using post_shout_status_accept [OF get_tokens_srv0, of req_success "''tokA''" "''B''"
        "''7''" "''success''" "''e-success''" 9 0]
    by (simp add: req_success_def STATUS_MAP_values put_def combine_ids_def srv0_def
        indexed_ok_def MAX_STRING_LENGTH_def)
  then have m: "hd (log (snd (post_shout_status purse0 req_success 9 0 srv0)))
      \<in> set (log (snd (post_shout_status purse0 req_success 9 0 srv0)))" by simp
  from written_events_error_result [OF r m] l
  have "status (hd (log (snd (post_shout_status purse0 req_success 9 0 srv0))))
      = Some ''e-success''" by simp
  with r l show ?thesis by simp
qed

text \<open>
  The claim as stated fails: a callback with the status \<open>shouting\<close> and a payload writes an
  event whose \<open>result\<close> is populated, since line 284 stores the payload in \<open>result\<close> for
  every status but \<open>error\<close> and \<open>fatal\<close>.
\<close>

theorem result_written_for_shouting:
  "reachable purse0 (snd (post_shout_status purse0 req_shouting 9 0 srv0)) \<and>
   post_shout_status purse0 req_shouting 9 0 srv0 =
     (Inr ''{}'',
      srv0\<lparr>log := [\<lparr>combined_shout_id = ''B-7'', status = Some ''b-shouting'', timestamp = 9,
                     error = None, result = Some ''HEL'', host = Some ''win1''\<rparr>]\<rparr>)"
proof -
  have "post_shout_status purse0 req_shouting 9 0 srv0 =
     (Inr ''{}'',
      srv0\<lparr>log := [\<lparr>combined_shout_id = ''B-7'', status = Some ''b-shouting'', timestamp = 9,
                     error = None, result = Some ''HEL'', host = Some ''win1''\<rparr>]\<rparr>)"
    using post_shout_status_accept [OF get_tokens_srv0, of req_shouting "''tokA''" "''B''"
        "''7''" "''shouting''" "''b-shouting''" 9 0]
    by (simp add: req_shouting_def STATUS_MAP_values put_def combine_ids_def srv0_def
        indexed_ok_def MAX_STRING_LENGTH_def)
  then show ?thesis using reach_post [OF reachable_srv0, of req_shouting 9 0] by simp
qed

subsection \<open>Terminal events\<close>

text \<open>
  Claim C2. Let the first query of the poll loop see a \<open>SUCCESS\<close> or \<open>FATAL\<close> event of the
  job, in a log whose statuses are members of \<open>STATUSES\<close>, as the property's choices
  enforce. Then for every last known status the loop returns in its first pass, without
  sleeping, with HTTP status 200 and no \<open>nextLink\<close>: the status \<open>success\<close> with the
  \<open>result\<close> of the event found if the job has a \<open>SUCCESS\<close> event, and the status \<open>fatal\<close>
  with the \<open>error\<close> of the event found otherwise.
\<close>

theorem poll_terminal_immediately:
  assumes "\<forall>x \<in> set (datastore_at w 0).
             combined_shout_id x = combine_ids b s \<longrightarrow> status_choices x"
    and "t \<in> set (datastore_at w 0)" and "combined_shout_id t = combine_ids b s"
    and "status t = Some ''e-success'' \<or> status t = Some ''d-fatal''"
  shows "\<exists>e. latest (datastore_at w 0) (combine_ids b s) = Some e \<and>
           (status e = Some ''e-success'' \<or> status e = Some ''d-fatal'') \<and>
           (status t = Some ''e-success'' \<longrightarrow> status e = Some ''e-success'') \<and>
           poll_shout_status w b s known =
             Some (Inr (if status e = Some ''e-success''
                        then [''shoutId'' \<mapsto> JStr s, ''status'' \<mapsto> JStr ''success'',
                              ''result'' \<mapsto> json_opt (result e)]
                        else [''shoutId'' \<mapsto> JStr s, ''status'' \<mapsto> JStr ''fatal'',
                              ''error'' \<mapsto> json_opt (error e)], 200), [])"
proof -
  from assms(2,3) have "latest (datastore_at w 0) (combine_ids b s) \<noteq> None"
    by (auto simp: latest_None)
  then obtain e where e: "latest (datastore_at w 0) (combine_ids b s) = Some e" by auto
  have c: "status_choices e" using latest_Some(1,2) [OF e] assms(1) by blast
  have le: "status t \<le> status e" using latest_Some(3) [OF e assms(2,3)] .
  have "Some ''d-fatal'' \<le> status t"
    using assms(4) by auto
  then have "Some ''d-fatal'' \<le> status e"
    using le by (rule order_trans)
  from terminal_status [OF c this]
  have fin: "status e = Some ''e-success'' \<or> status e = Some ''d-fatal''" by blast
  have succ: "status e = Some ''e-success''" if "status t = Some ''e-success''"
    using success_status [OF c] le that by simp
  have run: "poll_shout_status w b s known =
             Some (Inr (if status e = Some ''e-success''
                        then [''shoutId'' \<mapsto> JStr s, ''status'' \<mapsto> JStr ''success'',
                              ''result'' \<mapsto> json_opt (result e)]
                        else [''shoutId'' \<mapsto> JStr s, ''status'' \<mapsto> JStr ''fatal'',
                              ''error'' \<mapsto> json_opt (error e)], 200), [])"
  proof (cases "status e = Some ''e-success''")
    case True
    then have "look_up (datastore_at w 0) b s known
        [''shoutId'' \<mapsto> JStr s, ''status'' \<mapsto> JStr known]
       = Returned [''shoutId'' \<mapsto> JStr s, ''status'' \<mapsto> JStr ''success'',
                   ''result'' \<mapsto> json_opt (result e)]"
      by (simp add: look_up_latest e status_name_simps)
    with True show ?thesis
      by (simp add: poll_shout_status_def poll_loop.simps [of w])
  next
    case False
    with fin have f: "status e = Some ''d-fatal''" by simp
    then have "look_up (datastore_at w 0) b s known
        [''shoutId'' \<mapsto> JStr s, ''status'' \<mapsto> JStr known]
       = Returned [''shoutId'' \<mapsto> JStr s, ''status'' \<mapsto> JStr ''fatal'',
                   ''error'' \<mapsto> json_opt (error e)]"
      by (simp add: look_up_latest e status_name_simps)
    with f show ?thesis
      by (simp add: poll_shout_status_def poll_loop.simps [of w])
  qed
  from e fin succ run show ?thesis by blast
qed

theorem poll_terminal_immediately_witness:
  "poll_shout_status world_done ''B'' ''7'' ''shouting'' =
     Some (Inr ([''shoutId'' \<mapsto> JStr ''7'', ''status'' \<mapsto> JStr ''success'',
                 ''result'' \<mapsto> JStr ''HELLO''], 200), [])"
proof -
  have k: "combine_ids ''B'' ''7'' = ''B-7''" by (simp add: combine_ids_def)
  have d: "datastore_at world_done 0 = [evN, evS]" by (simp add: world_done_def)
  have h: "\<forall>x \<in> set (datastore_at world_done 0).
             combined_shout_id x = combine_ids ''B'' ''7'' \<longrightarrow> status_choices x"
    "evS \<in> set (datastore_at world_done 0)" "combined_shout_id evS = combine_ids ''B'' ''7''"
    "status evS = Some ''e-success'' \<or> status evS = Some ''d-fatal''"
    by (simp_all add: d k status_choices_def STATUSES_def evN_def evS_def)
  have l: "latest [evN, evS] ''B-7'' = Some evS"
    by (simp add: latest_two evN_def evS_def)
  from poll_terminal_immediately [OF h, of "''shouting''"] l
  have "poll_shout_status world_done ''B'' ''7'' ''shouting'' =
      Some (Inr (if status evS = Some ''e-success''
                 then [''shoutId'' \<mapsto> JStr ''7'', ''status'' \<mapsto> JStr ''success'',
                       ''result'' \<mapsto> json_opt (result evS)]
                 else [''shoutId'' \<mapsto> JStr ''7'', ''status'' \<mapsto> JStr ''fatal'',
                       ''error'' \<mapsto> json_opt (error evS)], 200), [])"
    by (auto simp: d k)
  then show ?thesis by (simp add: evS_def json_opt_def)
qed

subsection \<open>Backoff and timeout\<close>



subsection \<open>The shape of a response\<close>

text \<open>
  Claim C4, as amended. Every response of the poll loop carries HTTP status 200 or 202,
  and a \<open>nextLink\<close> exactly when it is 202. It has a \<open>result\<close> exactly when it is a 200
  response with the status \<open>success\<close>. A 200 response has the status \<open>success\<close> or
  \<open>fatal\<close>, an \<open>error\<close> exactly when the status is \<open>fatal\<close>, and so exactly one of
  \<open>result\<close> and \<open>error\<close>. A 202 response has no \<open>result\<close>, and besides its \<open>nextLink\<close> an
  \<open>error\<close> member (the error of the event found, which may be null) exactly when its
  status differs from the last known status.
\<close>

theorem poll_response_shape:
  assumes "poll_shout_status w b s known = Some (Inr (r, code), slept)"
  shows "(code = 200 \<or> code = 202) \<and>
         ((r ''nextLink'' \<noteq> None) = (code = 202)) \<and>
         ((r ''result'' \<noteq> None) = (code = 200 \<and> r ''status'' = Some (JStr ''success''))) \<and>
         (code = 200 \<longrightarrow>
            (r ''status'' = Some (JStr ''success'') \<or> r ''status'' = Some (JStr ''fatal'')) \<and>
            ((r ''error'' \<noteq> None) = (r ''status'' = Some (JStr ''fatal''))) \<and>
            ((r ''result'' \<noteq> None) \<noteq> (r ''error'' \<noteq> None))) \<and>
         (code = 202 \<longrightarrow>
            ((r ''error'' \<noteq> None) = (r ''status'' \<noteq> Some (JStr known))))"
proof -
  from assms obtain y where
    y: "poll_loop w b s known [''shoutId'' \<mapsto> JStr s, ''status'' \<mapsto> JStr known] (1 / 10) 0 []
          = Some y"
    by (auto simp: poll_shout_status_def split: option.splits)
  from poll_loop_shape [OF y] fresh_response_initial
  have sh: "case fst y of Inl err \<Rightarrow> True | Inr l \<Rightarrow> left_shape known l" by simp
  show ?thesis
  proof (cases "fst y")
    case (Inl err)
    with assms y show ?thesis
      by (auto simp: poll_shout_status_def split: prod.splits)
  next
    case (Inr l)
    show ?thesis
    proof (cases l)
      case (Return r')
      with Inr assms y have "r = r'" "code = 200"
        by (auto simp: poll_shout_status_def split: prod.splits)
      with sh Inr Return show ?thesis by (auto simp: left_shape_def)
    next
      case (Break r')
      with Inr assms y have n: "next_link b s r' = Inr r" and c: "code = 202"
        by (auto simp: poll_shout_status_def split: prod.splits sum.splits)
      from sh Inr Break have
        "r' ''nextLink'' = None \<and> r' ''result'' = None \<and> r' ''status'' \<noteq> None \<and>
          ((r' ''error'' \<noteq> None) = (r' ''status'' \<noteq> Some (JStr known)))"
        by (simp add: left_shape_def)
      with next_link_Inr [OF n] c show ?thesis by simp
    qed
  qed
qed


theorem poll_response_shape_witness:
  "poll_shout_status world_done ''B'' ''7'' ''new'' =
     Some (Inr ([''shoutId'' \<mapsto> JStr ''7'', ''status'' \<mapsto> JStr ''success'',
                 ''result'' \<mapsto> JStr ''HELLO''], 200), []) \<and>
   [''shoutId'' \<mapsto> JStr ''7'', ''status'' \<mapsto> JStr ''success'',
    ''result'' \<mapsto> JStr ''HELLO''] ''error'' = None"
proof -
  from poll_response_shape [OF poll_world_done]
  have "[''shoutId'' \<mapsto> JStr ''7'', ''status'' \<mapsto> JStr ''success'',
         ''result'' \<mapsto> JStr ''HELLO''] ''error'' = None" by simp
  with poll_world_done show ?thesis by simp
qed

text \<open>
  The claim as stated fails: when the status has changed from \<open>new\<close> to \<open>error\<close>, the
  response carries the error and the continuation together (lines 246-249 and 258).
\<close>

theorem poll_error_with_continuation:
  "poll_shout_status world_error ''B'' ''7'' ''new'' =
     Some (Inr ([''shoutId'' \<mapsto> JStr ''7'', ''status'' \<mapsto> JStr ''error'',
                 ''error'' \<mapsto> JStr ''first'',
                 ''nextLink'' \<mapsto> JDict
                    [(''target'', JStr ''shout_status''), (''method'', JStr ''POST''),
                     (''token'', UrlEncoded
                        [(''browserId'', JStr ''B''), (''shoutId'', JStr ''7''),
                         (''status'', JStr ''error'')])]], 202), [])"
proof -
  have l: "latest [evN, ev1] ''B-7'' = Some ev1"
    by (simp add: latest_two evN_def ev1_def)
  have n: "status_name ev1 = Inr ''error''" "error ev1 = Some ''first''"
    by (simp_all add: status_name_simps ev1_def)
  have "look_up (datastore_at world_error 0) ''B'' ''7'' ''new''
      [''shoutId'' \<mapsto> JStr ''7'', ''status'' \<mapsto> JStr ''new'']
     = Broke [''shoutId'' \<mapsto> JStr ''7'', ''status'' \<mapsto> JStr ''error'',
                 ''error'' \<mapsto> JStr ''first'']"
    by (simp add: look_up_latest world_error_def combine_ids_def l n json_opt_def)
  then show ?thesis
    by (simp add: poll_shout_status_def poll_loop.simps [of world_error] next_link_def)
qed

end
